theory Spec2Isabelle
  imports Main "HOL-Library.Sublist"
begin

section \<open>Python and NumPy values used by \<open>mne/montages/montage.py\<close>\<close>

text \<open>
  Exceptions are values.  \<open>ValueError\<close> carries the message of the one \<open>raise\<close> written in
  \<open>read_montage\<close> itself; the exceptions raised inside library calls are kept apart by
  constructor and carry no text:
  \<^item> \<open>UnpackError\<close>: the \<open>ValueError\<close> of \<open>sel, names_ = zip(*[])\<close> (nothing to unpack),
  \<^item> \<open>LoadtxtError\<close>: a \<open>ValueError\<close> inside \<open>np.loadtxt\<close> (wrong number of columns, a
    token that \<open>float()\<close> rejects),
  \<^item> \<open>IndexError\<close>: an index out of bounds or too many indices,
  \<^item> \<open>IOError\<close>: the file cannot be opened,
  \<^item> \<open>StopIteration\<close>: \<open>skiprows\<close> runs past the end of the file,
  \<^item> \<open>TypeError\<close>: \<open>len()\<close> of an unsized object.
\<close>

datatype py_error =
    ValueError string
  | UnpackError
  | LoadtxtError
  | IndexError
  | IOError
  | StopIteration
  | TypeError

text \<open>
  A NumPy array of dimension 0, 1 or 2 (a 2-d array is the list of its rows).  The element
  type \<open>'a\<close> is a double, a byte string or a row of a structured array.
\<close>

datatype 'a ndarray = Nd0 'a | Nd1 "'a list" | Nd2 "'a list list"

text \<open>Python's \<open>len\<close> on an array: the size of the first axis; a 0-d array has none.\<close>

fun len_nd :: "'a ndarray \<Rightarrow> py_error + nat" where
  "len_nd (Nd0 x) = Inl TypeError"
| "len_nd (Nd1 xs) = Inr (length xs)"
| "len_nd (Nd2 rows) = Inr (length rows)"

text \<open>
  \<open>a[sel]\<close> where \<open>sel\<close> is a tuple of non-negative Python ints: NumPy reads a tuple as one
  index per axis, so \<open>a[(i,)]\<close> is \<open>a[i]\<close> and \<open>a[(i, j)]\<close> is \<open>a[i, j]\<close>; more indices
  than axes, or an index past the end of its axis, raise \<open>IndexError\<close>.
\<close>

fun getitem_tuple :: "'a ndarray \<Rightarrow> nat list \<Rightarrow> py_error + 'a ndarray" where
  "getitem_tuple a [] = Inr a"
| "getitem_tuple (Nd0 x) (i # sel) = Inl IndexError"
| "getitem_tuple (Nd1 xs) [i] = (if i < length xs then Inr (Nd0 (xs ! i)) else Inl IndexError)"
| "getitem_tuple (Nd1 xs) (i # j # sel) = Inl IndexError"
| "getitem_tuple (Nd2 rows) [i] =
     (if i < length rows then Inr (Nd1 (rows ! i)) else Inl IndexError)"
| "getitem_tuple (Nd2 rows) [i, j] =
     (if i < length rows \<and> j < length (rows ! i) then Inr (Nd0 (rows ! i ! j))
      else Inl IndexError)"
| "getitem_tuple (Nd2 rows) (i # j # k # sel) = Inl IndexError"

text \<open>
  \<open>np.c_[a, b, c]\<close>: every argument is brought to two dimensions (a 0-d array becomes
  1 by 1, a 1-d array of length n becomes a column n by 1) and the three are joined along
  the last axis, which needs the same number of rows in each.
\<close>

fun as_columns :: "'a ndarray \<Rightarrow> 'a list list" where
  "as_columns (Nd0 x) = [[x]]"
| "as_columns (Nd1 xs) = map (\<lambda>x. [x]) xs"
| "as_columns (Nd2 rows) = rows"

definition np_c :: "'a ndarray \<Rightarrow> 'a ndarray \<Rightarrow> 'a ndarray \<Rightarrow> py_error + 'a ndarray" where
  "np_c a b c =
     (let ra = as_columns a; rb = as_columns b; rc = as_columns c
      in if length ra = length rb \<and> length rb = length rc
         then Inr (Nd2 (map (\<lambda>((x, y), z). x @ y @ z) (zip (zip ra rb) rc)))
         else Inl (ValueError ''all the input array dimensions except for the concatenation axis must match exactly''))"

text \<open>
  The value stored in the \<open>names\<close> field of a Montage: a NumPy array of \<open>S4\<close> strings
  (\<open>.sfp\<close>, \<open>.txt\<close>, \<open>.csd\<close>), a Python list (\<open>.elc\<close>), or the tuple that \<open>zip\<close> returns
  when a \<open>names\<close> argument is given.
\<close>

datatype names_val =
    NamesArray "string ndarray"
  | NamesList "string list"
  | NamesTuple "string list"

fun len_names :: "names_val \<Rightarrow> py_error + nat" where
  "len_names (NamesArray a) = len_nd a"
| "len_names (NamesList xs) = Inr (length xs)"
| "len_names (NamesTuple xs) = Inr (length xs)"

text \<open>\<open>class Montage\<close>: the three attributes set by \<open>__init__\<close>.\<close>

record 'f montage =
  pos :: "'f ndarray"
  names :: names_val
  kind :: string

section \<open>Strings and paths\<close>

abbreviation NL :: char where "NL \<equiv> CHR 0x0A"

text \<open>\<open>s.strip(chars)\<close>: drop the characters of \<open>chars\<close> from both ends.\<close>

definition strip :: "string \<Rightarrow> string \<Rightarrow> string" where
  "strip chars s =
     rev (dropWhile (\<lambda>c. c \<in> set chars) (rev (dropWhile (\<lambda>c. c \<in> set chars) s)))"

text \<open>\<open>sub in s\<close> on strings: \<open>sub\<close> occurs in \<open>s\<close> as a contiguous run.\<close>

primrec str_in :: "string \<Rightarrow> string \<Rightarrow> bool" where
  "str_in sub [] = (sub = [])"
| "str_in sub (c # cs) = (prefix sub (c # cs) \<or> str_in sub cs)"

text \<open>\<open>s.endswith(suf)\<close>.\<close>

definition endswith :: "string \<Rightarrow> string \<Rightarrow> bool" where
  "endswith s suf = suffix suf s"

text \<open>\<open>s.split()\<close>: the maximal runs of non-whitespace characters.\<close>

definition whitespace :: string where
  "whitespace = [CHR '' '', CHR 0x09, CHR 0x0A, CHR 0x0B, CHR 0x0C, CHR 0x0D]"

fun split_ws :: "string \<Rightarrow> string \<Rightarrow> string list" where
  "split_ws cur [] = (if cur = [] then [] else [cur])"
| "split_ws cur (c # cs) =
     (if c \<in> set whitespace
      then (if cur = [] then split_ws [] cs else cur # split_ws [] cs)
      else split_ws (cur @ [c]) cs)"

text \<open>Iterating a file object over a text: the lines, each with its newline.\<close>

fun lines_of :: "string \<Rightarrow> string \<Rightarrow> string list" where
  "lines_of cur [] = (if cur = [] then [] else [cur])"
| "lines_of cur (c # cs) =
     (if c = NL then (cur @ [c]) # lines_of [] cs else lines_of (cur @ [c]) cs)"

text \<open>\<open>os.path.join(a, b)\<close> and \<open>os.path.split(p)\<close> of \<open>posixpath\<close>.\<close>

definition op_join :: "string \<Rightarrow> string \<Rightarrow> string" where
  "op_join a b =
     (if prefix ''/'' b then b
      else if a = [] \<or> endswith a ''/'' then a @ b
      else a @ ''/'' @ b)"

definition op_split :: "string \<Rightarrow> string \<times> string" where
  "op_split p =
     (let tail = rev (takeWhile (\<lambda>c. c \<noteq> CHR ''/'') (rev p));
          head = take (length p - length tail) p
      in (if head \<noteq> [] \<and> head \<noteq> replicate (length head) (CHR ''/'')
          then rev (dropWhile (\<lambda>c. c = CHR ''/'') (rev head)) else head,
          tail))"

section \<open>What the module takes from outside\<close>

text \<open>
  The doubles are an abstract type \<open>'f\<close>.  A world fixes everything \<open>read_montage\<close> reads
  from its surroundings:
  \<^item> \<open>files\<close>: for a path, the lines that iterating the opened file yields (each with its
    newline, the last one possibly without), or \<open>None\<close> when the file cannot be opened;
  \<^item> \<open>here\<close>: \<open>op.dirname(__file__)\<close>, the directory of the module;
  \<^item> \<open>float_conv\<close>: Python's \<open>float(token)\<close>, \<open>None\<close> when it raises;
  \<^item> \<open>deg2rad\<close>: \<open>np.deg2rad\<close> on one double (NumPy applies it to every element);
  \<^item> \<open>sphere_to_cartesian\<close>: \<open>_sphere_to_cartesian\<close> of \<open>mne/utils.py\<close>, which is not part
    of the sources at hand and is taken as it comes, on whole arrays;
  \<^item> \<open>one\<close>: the double \<open>1.0\<close>.
\<close>

record 'f world =
  files :: "string \<Rightarrow> string list option"
  here :: string
  float_conv :: "string \<Rightarrow> 'f option"
  deg2rad :: "'f \<Rightarrow> 'f"
  sphere_to_cartesian :: "'f ndarray \<Rightarrow> 'f ndarray \<Rightarrow> 'f \<Rightarrow> 'f ndarray \<times> 'f ndarray \<times> 'f ndarray"
  one :: 'f

section \<open>\<open>np.loadtxt\<close>\<close>

text \<open>
  \<open>split_line\<close> of \<open>np.loadtxt\<close>: cut the line at the first \<open>#\<close>, strip carriage returns
  and newlines, split at whitespace.
\<close>

definition split_line :: "string \<Rightarrow> string list" where
  "split_line line =
     (let l = strip [CHR 0x0D, NL] (takeWhile (\<lambda>c. c \<noteq> CHR ''#'') line)
      in if l \<noteq> [] then split_ws [] l else [])"

text \<open>
  The rows of tokens that \<open>np.loadtxt\<close> converts: after \<open>skiprows\<close> lines, every line that
  has a token.  The first such row fixes the number of columns \<open>N\<close>.
\<close>

definition token_rows :: "nat \<Rightarrow> string list \<Rightarrow> py_error + string list list" where
  "token_rows skiprows lines =
     (if length lines < skiprows then Inl StopIteration
      else Inr (filter (\<lambda>vals. vals \<noteq> []) (map split_line (drop skiprows lines))))"

definition first_N :: "string list list \<Rightarrow> nat" where
  "first_N rows = (case rows of [] \<Rightarrow> 0 | vals # rest \<Rightarrow> length vals)"

text \<open>
  The loop over the rows: a row whose number of tokens is not \<open>N\<close> raises, then the row is
  converted; the first failure ends the call.
\<close>

fun convert_rows ::
  "(string list \<Rightarrow> py_error + 'r) \<Rightarrow> nat \<Rightarrow> string list list \<Rightarrow> py_error + 'r list" where
  "convert_rows conv N [] = Inr []"
| "convert_rows conv N (vals # rest) =
     (if length vals \<noteq> N then Inl LoadtxtError
      else case conv vals of
             Inl e \<Rightarrow> Inl e
           | Inr r \<Rightarrow> (case convert_rows conv N rest of
                         Inl e \<Rightarrow> Inl e
                       | Inr rs \<Rightarrow> Inr (r # rs)))"

text \<open>
  A row of a structured dtype made of one \<open>S4\<close> field followed by \<open>k\<close> fields \<open>f8\<close>
  (\<open>'S4, f8, f8, f8'\<close>, \<open>'S4, f8, f8'\<close>, and the eight fields of the \<open>.csd\<close> table): the
  converters are zipped with the tokens, so tokens beyond the fields are dropped; a token
  that \<open>float()\<close> rejects raises; a row with fewer tokens than fields raises
  \<open>IndexError\<close> when it is packed.  Storing the label in the \<open>S4\<close> field keeps its
  first four bytes.
\<close>

definition conv_struct ::
  "(string \<Rightarrow> 'f option) \<Rightarrow> nat \<Rightarrow> string list \<Rightarrow> py_error + (string \<times> 'f list)" where
  "conv_struct fc k vals =
     (case vals of
        [] \<Rightarrow> Inl IndexError
      | label # toks \<Rightarrow>
          (case those (map fc (take k toks)) of
             None \<Rightarrow> Inl LoadtxtError
           | Some fs \<Rightarrow> if length fs < k then Inl IndexError else Inr (take 4 label, fs)))"

text \<open>A row of the default dtype \<open>float\<close>: every token is converted.\<close>

definition conv_float :: "(string \<Rightarrow> 'f option) \<Rightarrow> string list \<Rightarrow> py_error + 'f list" where
  "conv_float fc vals =
     (case those (map fc vals) of None \<Rightarrow> Inl LoadtxtError | Some fs \<Rightarrow> Inr fs)"

text \<open>
  \<open>np.squeeze\<close> at the end of \<open>np.loadtxt\<close> (\<open>ndmin=0\<close>): axes of length one are removed.
  A structured array has one axis (the rows); a float array has shape (rows, N), or (rows)
  when \<open>N = 1\<close>.
\<close>

definition squeeze_struct :: "'r list \<Rightarrow> 'r ndarray" where
  "squeeze_struct rows = (case rows of [r] \<Rightarrow> Nd0 r | _ \<Rightarrow> Nd1 rows)"

definition squeeze_float :: "nat \<Rightarrow> 'f list list \<Rightarrow> 'f ndarray" where
  "squeeze_float N rows =
     (if N = 1
      then (case concat rows of [x] \<Rightarrow> Nd0 x | xs \<Rightarrow> Nd1 xs)
      else (case rows of [] \<Rightarrow> Nd1 [] | [row] \<Rightarrow> Nd1 row | _ \<Rightarrow> Nd2 rows))"

text \<open>\<open>np.loadtxt(lines, dtype=<S4 and k doubles>, skiprows=s)\<close> on the lines of a file.\<close>

definition loadtxt_struct_lines ::
  "(string \<Rightarrow> 'f option) \<Rightarrow> nat \<Rightarrow> nat \<Rightarrow> string list \<Rightarrow> py_error + (string \<times> 'f list) ndarray" where
  "loadtxt_struct_lines fc k skiprows lines =
     (case token_rows skiprows lines of
        Inl e \<Rightarrow> Inl e
      | Inr rows \<Rightarrow>
          (case convert_rows (conv_struct fc k) (first_N rows) rows of
             Inl e \<Rightarrow> Inl e
           | Inr X \<Rightarrow> Inr (squeeze_struct X)))"

text \<open>\<open>np.loadtxt(fname, dtype=..., skiprows=s)\<close>: open the file, then as above.\<close>

definition loadtxt_struct ::
  "'f world \<Rightarrow> string \<Rightarrow> nat \<Rightarrow> nat \<Rightarrow> py_error + (string \<times> 'f list) ndarray" where
  "loadtxt_struct w fname k skiprows =
     (case files w fname of
        None \<Rightarrow> Inl IOError
      | Some lines \<Rightarrow> loadtxt_struct_lines (float_conv w) k skiprows lines)"

text \<open>\<open>np.loadtxt(f)\<close> with the default dtype on the lines of an in-memory file.\<close>

definition loadtxt_float :: "(string \<Rightarrow> 'f option) \<Rightarrow> string list \<Rightarrow> py_error + 'f ndarray" where
  "loadtxt_float fc lines =
     (case token_rows 0 lines of
        Inl e \<Rightarrow> Inl e
      | Inr rows \<Rightarrow>
          (case convert_rows (conv_float fc) (first_N rows) rows of
             Inl e \<Rightarrow> Inl e
           | Inr X \<Rightarrow> Inr (squeeze_float (first_N rows) X)))"

text \<open>
  Fields of a structured array: \<open>data['f0']\<close> (or \<open>table['label']\<close>) is the \<open>S4\<close> field,
  \<open>field j\<close> is the \<open>j\<close>-th double after it.  The result has the shape of the array.
\<close>

definition label_field :: "(string \<times> 'f list) ndarray \<Rightarrow> string ndarray" where
  "label_field data = map_ndarray fst data"

definition field :: "nat \<Rightarrow> (string \<times> 'f list) ndarray \<Rightarrow> 'f ndarray" where
  "field j data = map_ndarray (\<lambda>r. snd r ! j) data"

section \<open>\<open>read_montage\<close>\<close>

text \<open>Sequencing of calls that may raise: the first exception ends the computation.\<close>

fun bind_result :: "py_error + 'a \<Rightarrow> ('a \<Rightarrow> py_error + 'b) \<Rightarrow> py_error + 'b" where
  "bind_result (Inl e) f = Inl e"
| "bind_result (Inr x) f = f x"

subsection \<open>The \<open>.sfp\<close> branch (EGI geodesic)\<close>

definition read_sfp :: "'f world \<Rightarrow> string \<Rightarrow> py_error + ('f ndarray \<times> names_val)" where
  "read_sfp w fname =
     bind_result (loadtxt_struct w fname 3 0) (\<lambda>data.
     bind_result (np_c (field 0 data) (field 1 data) (field 2 data)) (\<lambda>p.
     Inr (p, NamesArray (label_field data))))"

subsection \<open>The \<open>.elc\<close> branch (10-5 system)\<close>

text \<open>
  The three \<open>for line in fid\<close> loops share one file iterator: each function takes the lines
  not yet read and, where the next loop needs them, returns the lines left after its
  \<open>break\<close> (the line that breaks a loop is consumed).
\<close>

fun seek_positions :: "string list \<Rightarrow> string list" where
  "seek_positions [] = []"
| "seek_positions (line # fid) =
     (if str_in (''Positions'' @ [NL]) line then fid else seek_positions fid)"

fun read_positions :: "string list \<Rightarrow> string list \<Rightarrow> string list \<times> string list" where
  "read_positions ps [] = (ps, [])"
| "read_positions ps (line # fid) =
     (if str_in (''Labels'' @ [NL]) line then (ps, fid)
      else read_positions (ps @ [line]) fid)"

fun read_labels :: "string list \<Rightarrow> string list \<Rightarrow> string list" where
  "read_labels ns [] = ns"
| "read_labels ns (line # fid) =
     (if line = [] \<or> set line - set '' '' = {} then ns
      else read_labels (ns @ [strip [NL] (strip '' '' line)]) fid)"

definition read_elc :: "'f world \<Rightarrow> string \<Rightarrow> py_error + ('f ndarray \<times> names_val)" where
  "read_elc w fname =
     (case files w fname of
        None \<Rightarrow> Inl IOError
      | Some fid \<Rightarrow>
          (let (ps, rest) = read_positions [] (seek_positions fid);
               ns = read_labels [] rest
           in bind_result (loadtxt_float (float_conv w) (lines_of [] (concat ps))) (\<lambda>p.
              Inr (p, NamesList ns))))"

subsection \<open>The \<open>.txt\<close> branch (easycap)\<close>

definition read_txt :: "'f world \<Rightarrow> string \<Rightarrow> py_error + ('f ndarray \<times> names_val)" where
  "read_txt w fname =
     bind_result (loadtxt_struct w fname 2 1) (\<lambda>data.
       (let theta = field 0 data; phi = field 1 data;
            (x, y, z) = sphere_to_cartesian w (map_ndarray (deg2rad w) theta)
                                              (map_ndarray (deg2rad w) theta) (one w)
        in bind_result (np_c x y z) (\<lambda>p.
           Inr (p, NamesArray (label_field data)))))"

subsection \<open>The \<open>.csd\<close> branch (CSD toolbox)\<close>

text \<open>
  The doubles after \<open>label\<close> are \<open>theta, phi, radius, x, y, z, off_sph\<close>: \<open>x\<close>, \<open>y\<close>, \<open>z\<close>
  are the fields 3, 4 and 5.
\<close>

definition read_csd :: "'f world \<Rightarrow> string \<Rightarrow> py_error + ('f ndarray \<times> names_val)" where
  "read_csd w fname =
     bind_result (loadtxt_struct w fname 7 2) (\<lambda>table.
     bind_result (np_c (field 3 table) (field 4 table) (field 5 table)) (\<lambda>p.
     Inr (p, NamesArray (label_field table))))"

subsection \<open>Selection by name and the result\<close>

text \<open>
  \<open>[(i, e) for i, e in enumerate(names) if e in names]\<close>: both occurrences of \<open>names\<close> are
  the argument of \<open>read_montage\<close>.
\<close>

definition selected :: "string list \<Rightarrow> (nat \<times> string) list" where
  "selected nms = filter (\<lambda>(i, e). e \<in> set nms) (enumerate 0 nms)"

text \<open>\<open>sel, names_ = zip(*pairs)\<close>: with no pair there is nothing to unpack.\<close>

definition zip_star :: "(nat \<times> string) list \<Rightarrow> py_error + (nat list \<times> string list)" where
  "zip_star pairs =
     (if pairs = [] then Inl UnpackError else Inr (map fst pairs, map snd pairs))"

text \<open>Lines 108 to 112: the optional selection, the basename of \<open>kind\<close>, the Montage.\<close>

definition build ::
  "string \<Rightarrow> string list option \<Rightarrow> 'f ndarray \<times> names_val \<Rightarrow> py_error + 'f montage" where
  "build knd nms loaded =
     (case nms of
        None \<Rightarrow>
          Inr \<lparr>pos = fst loaded, names = snd loaded, kind = snd (op_split knd)\<rparr>
      | Some ns \<Rightarrow>
          bind_result (zip_star (selected ns)) (\<lambda>(sel, ns').
          bind_result (getitem_tuple (fst loaded) sel) (\<lambda>p.
          Inr \<lparr>pos = p, names = NamesTuple ns', kind = snd (op_split knd)\<rparr>)))"

text \<open>
  \<open>read_montage(kind, names, path, scale)\<close> in a world.  The first component of the result
  lists the files the call opened, the second is the exception raised or the Montage
  returned.  The parameters are written \<open>knd\<close> and \<open>nms\<close>, as \<open>kind\<close> and \<open>names\<close> are the
  fields of the Montage.
\<close>

definition read_montage_io ::
  "'f world \<Rightarrow> string \<Rightarrow> string list option \<Rightarrow> string option \<Rightarrow> bool
     \<Rightarrow> string list \<times> (py_error + 'f montage)" where
  "read_montage_io w knd nms path scale =
     (let path = (case path of None \<Rightarrow> here w | Some p \<Rightarrow> p)
      in if endswith knd ''.sfp''
         then ([op_join path knd], bind_result (read_sfp w (op_join path knd)) (build knd nms))
         else if endswith knd ''.elc''
         then ([op_join path knd], bind_result (read_elc w (op_join path knd)) (build knd nms))
         else if endswith knd ''.txt''
         then ([op_join path knd], bind_result (read_txt w (op_join path knd)) (build knd nms))
         else if endswith knd ''.csd''
         then ([op_join path knd], bind_result (read_csd w (op_join path knd)) (build knd nms))
         else ([], Inl (ValueError (''Currently '' @ knd @ '' is not supported.''))))"

definition read_montage ::
  "'f world \<Rightarrow> string \<Rightarrow> string list option \<Rightarrow> string option \<Rightarrow> bool
     \<Rightarrow> py_error + 'f montage" where
  "read_montage w knd nms path scale = snd (read_montage_io w knd nms path scale)"

section \<open>A sample world\<close>

text \<open>
  A directory \<open>/m\<close> with one small file of every format, used to run \<open>read_montage\<close> on
  concrete inputs.  The doubles are stood in for by integers, \<open>float\<close> knows the tokens
  \<open>1\<close> to \<open>9\<close>, and the two conversions are arbitrary stand-ins of the right shape.
\<close>

definition sample_files :: "string \<Rightarrow> string list option" where
  "sample_files = map_of
     [(''/m/abc.sfp'',
         [''A 1 2 3'' @ [NL], ''B 4 5 6'' @ [NL], ''C 7 8 9'' @ [NL]]),
      (''/some/dir/abc.sfp'',
         [''A 1 2 3'' @ [NL], ''B 4 5 6'' @ [NL]]),
      (''/m/cap.txt'',
         [''Site Theta Phi'' @ [NL], ''Fp1 1 2'' @ [NL], ''Fpz-long 3 4'' @ [NL]]),
      (''/m/cap2.txt'',
         [''Site Theta Phi'' @ [NL], ''Fp1 1 5'' @ [NL], ''Fpz-long 3 6'' @ [NL]]),
      (''/m/t.csd'',
         [''h1'' @ [NL], ''h2'' @ [NL], ''Fp1-left 1 2 3 4 5 6 7'' @ [NL],
          ''Cz 1 2 3 7 8 9 1'' @ [NL]]),
      (''/m/s.elc'',
         [''# ASA'' @ [NL], ''Positions'' @ [NL], ''1 2 3'' @ [NL], ''4 5 6'' @ [NL],
          ''7 8 9'' @ [NL], ''Labels'' @ [NL], ''Fp1'' @ [NL], [NL], ''Fp2'' @ [NL]])]"

definition sample_world :: "int world" where
  "sample_world =
     \<lparr>files = sample_files, here = ''/m'',
      float_conv = map_of [(''1'', 1), (''2'', 2), (''3'', 3), (''4'', 4), (''5'', 5),
                           (''6'', 6), (''7'', 7), (''8'', 8), (''9'', 9)],
      deg2rad = (\<lambda>x. 10 * x),
      sphere_to_cartesian = (\<lambda>theta phi r. (theta, phi, map_ndarray (\<lambda>t. r) theta)),
      one = 1\<rparr>"

section \<open>Auxiliary facts\<close>

lemmas eval_defs =
  read_montage_def read_montage_io_def endswith_def suffix_to_prefix sample_world_def
  sample_files_def op_join_def op_split_def read_sfp_def read_elc_def read_txt_def
  read_csd_def loadtxt_struct_def loadtxt_struct_lines_def loadtxt_float_def token_rows_def
  split_line_def strip_def whitespace_def first_N_def conv_struct_def conv_float_def
  squeeze_struct_def squeeze_float_def np_c_def field_def label_field_def build_def
  selected_def zip_star_def

lemma bind_result_Inr: "bind_result r f = Inr y \<longleftrightarrow> (\<exists>x. r = Inr x \<and> f x = Inr y)"
  by (cases r) auto

lemma endswith_other:
  "endswith knd a \<Longrightarrow> length a = length b \<Longrightarrow> a \<noteq> b \<Longrightarrow> \<not> endswith knd b"
  by (auto simp: endswith_def suffix_def)

lemma selected_all: "selected ns = enumerate 0 ns"
  unfolding selected_def
  by (rule filter_True) (auto simp: enumerate_eq_zip dest: set_zip_rightD)

lemma zip_star_selected:
  "ns \<noteq> [] \<Longrightarrow> zip_star (selected ns) = Inr ([0..<length ns], ns)"
proof -
  assume "ns \<noteq> []"
  then have "enumerate 0 ns \<noteq> []" by (cases ns) simp_all
  then show ?thesis by (simp add: selected_all zip_star_def)
qed

lemma read_montage_build:
  "read_montage w knd nms path scale = Inr m \<Longrightarrow> \<exists>loaded. build knd nms loaded = Inr m"
  by (auto simp: read_montage_def read_montage_io_def Let_def bind_result_Inr split: if_splits)

lemma build_kind: "build knd nms loaded = Inr m \<Longrightarrow> kind m = snd (op_split knd)"
  by (auto simp: build_def bind_result_Inr split: option.splits)

lemma build_names:
  "ns \<noteq> [] \<Longrightarrow> build knd (Some ns) loaded = Inr m \<Longrightarrow> names m = NamesTuple ns"
  by (auto simp: build_def bind_result_Inr zip_star_selected)

lemma snd_op_split: "snd (op_split p) = rev (takeWhile (\<lambda>c. c \<noteq> CHR ''/'') (rev p))"
  by (simp add: op_split_def Let_def)

lemma basename_no_slash: "CHR ''/'' \<notin> set (snd (op_split p))"
  by (auto simp: snd_op_split dest: set_takeWhileD)

lemma basename_suffix:
  "\<exists>d. p = d @ snd (op_split p) \<and> (d = [] \<or> last d = CHR ''/'')"
proof -
  let ?d = "rev (dropWhile (\<lambda>c. c \<noteq> CHR ''/'') (rev p))"
  have 1: "p = ?d @ snd (op_split p)"
    unfolding snd_op_split by (metis rev_append rev_rev_ident takeWhile_dropWhile_id)
  have 2: "?d = [] \<or> last ?d = CHR ''/''"
    using hd_dropWhile [of "\<lambda>c. c \<noteq> CHR ''/''" "rev p"] by (auto simp: last_rev)
  from 1 2 show ?thesis by blast
qed

lemma read_montage_txt:
  "endswith knd ''.txt'' \<Longrightarrow>
   read_montage w knd nms path scale =
     bind_result (read_txt w (op_join (case path of None \<Rightarrow> here w | Some p \<Rightarrow> p) knd))
       (build knd nms)"
  using endswith_other [of knd "''.txt''" "''.sfp''"] endswith_other [of knd "''.txt''" "''.elc''"]
  by (simp add: read_montage_def read_montage_io_def Let_def)

lemma read_montage_csd:
  "endswith knd ''.csd'' \<Longrightarrow>
   read_montage w knd nms path scale =
     bind_result (read_csd w (op_join (case path of None \<Rightarrow> here w | Some p \<Rightarrow> p) knd))
       (build knd nms)"
  using endswith_other [of knd "''.csd''" "''.sfp''"] endswith_other [of knd "''.csd''" "''.elc''"]
    endswith_other [of knd "''.csd''" "''.txt''"]
  by (simp add: read_montage_def read_montage_io_def Let_def)

lemma build_pos:
  "map_sum id pos (build knd nms (p, l)) =
     (case nms of
        None \<Rightarrow> Inr p
      | Some ns \<Rightarrow> bind_result (zip_star (selected ns)) (\<lambda>(sel, ns'). getitem_tuple p sel))"
proof (cases nms)
  case None
  then show ?thesis by (simp add: build_def)
next
  case (Some ns)
  show ?thesis
  proof (cases "zip_star (selected ns)")
    case (Inl e)
    with Some show ?thesis by (simp add: build_def)
  next
    case (Inr r)
    obtain sel ns' where r: "r = (sel, ns')" by (cases r)
    show ?thesis
      using Some Inr r by (cases "getitem_tuple p sel") (simp_all add: build_def)
  qed
qed

lemma read_txt_pos:
  assumes "loadtxt_struct w fname 2 1 = Inr d"
  shows "map_sum id pos (bind_result (read_txt w fname) (build knd nms)) =
           (case sphere_to_cartesian w (map_ndarray (deg2rad w) (field 0 d))
                   (map_ndarray (deg2rad w) (field 0 d)) (one w) of
              (x, y, z) \<Rightarrow>
                (case np_c x y z of
                   Inl e \<Rightarrow> Inl e
                 | Inr p \<Rightarrow> map_sum id pos (build knd nms (p, NamesArray (label_field d)))))"
  using assms
  by (simp add: read_txt_def Let_def split: prod.splits sum.splits)

lemma convert_rows_labels:
  "convert_rows (conv_struct fc k) N rows = Inr X \<Longrightarrow>
   map fst X = map (\<lambda>vals. take 4 (hd vals)) rows"
proof (induction rows arbitrary: X)
  case Nil
  then show ?case by simp
next
  case (Cons vals rows)
  then show ?case
    by (auto simp: conv_struct_def split: if_splits sum.splits list.splits option.splits)
qed

lemma label_field_squeeze: "label_field (squeeze_struct X) = squeeze_struct (map fst X)"
  by (simp add: label_field_def squeeze_struct_def split: list.splits)

lemma set_squeeze_struct: "set_ndarray (squeeze_struct X) = set X"
  by (auto simp: squeeze_struct_def split: list.splits)

lemma loadtxt_struct_labels:
  assumes "files w fname = Some lines" and "token_rows s lines = Inr rows"
    and "loadtxt_struct w fname k s = Inr data"
  shows "label_field data = squeeze_struct (map (\<lambda>vals. take 4 (hd vals)) rows)"
  using assms
  by (auto simp: loadtxt_struct_def loadtxt_struct_lines_def label_field_squeeze
      convert_rows_labels split: sum.splits)

lemma read_txt_names:
  "read_txt w fname = Inr (p, l) \<Longrightarrow>
   \<exists>data. loadtxt_struct w fname 2 1 = Inr data \<and> l = NamesArray (label_field data)"
  by (auto simp: read_txt_def bind_result_Inr Let_def case_prod_beta)

lemma read_csd_names:
  "read_csd w fname = Inr (p, l) \<Longrightarrow>
   \<exists>data. loadtxt_struct w fname 7 2 = Inr data \<and> l = NamesArray (label_field data)"
  by (auto simp: read_csd_def bind_result_Inr)

lemma conv_struct_label:
  "conv_struct fc k (label # toks) = conv_struct fc k (take 4 label # toks)"
  by (simp add: conv_struct_def split: option.splits)

lemma those_map_Some:
  "(\<forall>t \<in> set ts. fc t \<noteq> None) \<Longrightarrow> those (map fc ts) = Some (map (\<lambda>t. the (fc t)) ts)"
  by (induction ts) auto

lemma conv_struct_ok:
  assumes "k < length vals" and "\<forall>t \<in> set (take k (tl vals)). fc t \<noteq> None"
  shows "\<exists>fs. conv_struct fc k vals = Inr (take 4 (hd vals), fs)"
proof (cases vals)
  case Nil
  with assms(1) show ?thesis by simp
next
  case (Cons label toks)
  with assms(2) have "those (map fc (take k toks)) = Some (map (\<lambda>t. the (fc t)) (take k toks))"
    by (simp add: those_map_Some)
  moreover from Cons assms(1) have "k \<le> length toks" by simp
  ultimately show ?thesis using Cons by (simp add: conv_struct_def)
qed

lemma convert_rows_ok:
  "(\<forall>vals \<in> set rows. length vals = N \<and> k < length vals \<and>
       (\<forall>t \<in> set (take k (tl vals)). fc t \<noteq> None)) \<Longrightarrow>
   \<exists>X. convert_rows (conv_struct fc k) N rows = Inr X"
proof (induction rows)
  case Nil
  then show ?case by simp
next
  case (Cons vals rows)
  then obtain X where "convert_rows (conv_struct fc k) N rows = Inr X" by auto
  moreover from Cons.prems obtain fs where "conv_struct fc k vals = Inr (take 4 (hd vals), fs)"
    using conv_struct_ok [of k vals fc] by auto
  moreover from Cons.prems have "length vals = N" by simp
  ultimately show ?case by simp
qed

lemma convert_rows_cut:
  assumes f: "\<And>vals. f vals = (case vals of [] \<Rightarrow> [] | label # toks \<Rightarrow> take 4 label # toks)"
  shows "convert_rows (conv_struct fc k) N (map f rows) = convert_rows (conv_struct fc k) N rows"
proof (induction rows)
  case Nil
  then show ?case by simp
next
  case (Cons vals rows)
  note IH = Cons.IH
  have "length (f vals) = length vals" and "conv_struct fc k (f vals) = conv_struct fc k vals"
    using f [of vals] conv_struct_label [of fc k] by (cases vals; simp)+
  with IH show ?case by (simp cong: sum.case_cong)
qed

lemma first_N_cut:
  assumes f: "\<And>vals. f vals = (case vals of [] \<Rightarrow> [] | label # toks \<Rightarrow> take 4 label # toks)"
  shows "first_N (map f rows) = first_N rows"
proof (cases rows)
  case Nil
  then show ?thesis by simp
next
  case (Cons vals rest)
  then show ?thesis by (cases vals) (simp_all add: first_N_def f)
qed

lemma as_columns_map: "as_columns (map_ndarray f a) = map (map f) (as_columns a)"
  by (cases a) (simp_all add: comp_def)

lemma np_c_fields: "\<exists>p. np_c (field a d) (field b d) (field c d) = Inr p"
  by (simp add: np_c_def field_def as_columns_map Let_def)

lemma read_csd_ok:
  "loadtxt_struct w fname 7 2 = Inr data \<Longrightarrow>
   \<exists>p. read_csd w fname = Inr (p, NamesArray (label_field data))"
  using np_c_fields [of 3 data 4 5] by (auto simp: read_csd_def)

lemma read_txt_eq:
  "loadtxt_struct w fname 2 1 = Inr data \<Longrightarrow>
   read_txt w fname =
     (case sphere_to_cartesian w (map_ndarray (deg2rad w) (field 0 data))
             (map_ndarray (deg2rad w) (field 0 data)) (one w) of
        (x, y, z) \<Rightarrow>
          (case np_c x y z of
             Inl e \<Rightarrow> Inl e
           | Inr p \<Rightarrow> Inr (p, NamesArray (label_field data))))"
  by (simp add: read_txt_def Let_def split: prod.splits sum.splits)

lemma loadtxt_struct_ok:
  assumes "files w fname = Some lines" and "token_rows s lines = Inr rows"
    and "\<forall>vals \<in> set rows. length vals = first_N rows \<and> k < length vals \<and>
           (\<forall>t \<in> set (take k (tl vals)). float_conv w t \<noteq> None)"
  shows "\<exists>data. loadtxt_struct w fname k s = Inr data \<and>
           label_field data = squeeze_struct (map (\<lambda>vals. take 4 (hd vals)) rows)"
proof -
  from assms(3) obtain X where "convert_rows (conv_struct (float_conv w) k) (first_N rows) rows = Inr X"
    using convert_rows_ok [of rows "first_N rows" k "float_conv w"] by blast
  with assms(1,2) have l: "loadtxt_struct w fname k s = Inr (squeeze_struct X)"
    by (simp add: loadtxt_struct_def loadtxt_struct_lines_def)
  with assms(1,2) show ?thesis
    using loadtxt_struct_labels [of w fname lines s rows k "squeeze_struct X"] by simp
qed

section \<open>Selection by name\<close>

text \<open>
  C1.  Claim: with a non-empty \<open>names\<close> list, \<open>read_montage\<close> keeps exactly the sensors of the
  file whose label is in the list, with their own positions (\<open>names=["A","C"]\<close> on a file
  with labels A, B, C gives names \<open>("A","C")\<close> and the positions of A and C).  The code tests
  \<open>e in names\<close> on the elements of \<open>names\<close> itself and indexes \<open>pos\<close> with the tuple of
  all indices.  On the sample file \<open>abc.sfp\<close>, whose rows are A (1,2,3), B (4,5,6) and
  C (7,8,9), the call with \<open>["A","C"]\<close> returns the single double \<open>pos[0, 1] = 2\<close> as its
  positions, and the call with \<open>["C"]\<close> returns the name C with the row of A.
\<close>

theorem filter_example_positions:
  "read_montage sample_world ''abc.sfp'' None None True =
     Inr \<lparr>pos = Nd2 [[1, 2, 3], [4, 5, 6], [7, 8, 9]],
          names = NamesArray (Nd1 [''A'', ''B'', ''C'']), kind = ''abc.sfp''\<rparr> \<and>
   read_montage sample_world ''abc.sfp'' (Some [''A'', ''C'']) None True =
     Inr \<lparr>pos = Nd0 2, names = NamesTuple [''A'', ''C''], kind = ''abc.sfp''\<rparr> \<and>
   read_montage sample_world ''abc.sfp'' (Some [''C'']) None True =
     Inr \<lparr>pos = Nd1 [1, 2, 3], names = NamesTuple [''C''], kind = ''abc.sfp''\<rparr>"
  by (simp add: eval_defs)

text \<open>
  C2.  Claim: a \<open>names\<close> list that shares no entry with the labels of the file makes
  \<open>read_montage\<close> fail.  On the code the call with \<open>["Z"]\<close> on the sample file \<open>abc.sfp\<close>
  (labels A, B, C) returns a Montage named Z that carries the row of A; only the empty
  list fails, at the unpacking of \<open>zip\<close>.
\<close>

theorem disjoint_names_returns_montage:
  "read_montage sample_world ''abc.sfp'' (Some [''Z'']) None True =
     Inr \<lparr>pos = Nd1 [1, 2, 3], names = NamesTuple [''Z''], kind = ''abc.sfp''\<rparr> \<and>
   read_montage sample_world ''abc.sfp'' (Some []) None True = Inl UnpackError"
  by (simp add: eval_defs)

text \<open>
  C3.  For every non-empty \<open>names\<close> argument the membership test of the selection compares
  each requested name with the requested list itself: every pair of \<open>enumerate(names)\<close> is
  kept, \<open>zip\<close> yields the indices \<open>0 .. len(names)-1\<close> and the requested names, and a
  Montage that is returned has exactly the requested names, as a tuple, whatever the file
  holds.
\<close>

theorem names_returned_verbatim:
  assumes "ns \<noteq> []"
  shows "selected ns = enumerate 0 ns \<and>
         zip_star (selected ns) = Inr ([0..<length ns], ns) \<and>
         (read_montage w knd (Some ns) path scale = Inr m \<longrightarrow> names m = NamesTuple ns)"
proof -
  have "names m = NamesTuple ns" if "read_montage w knd (Some ns) path scale = Inr m"
  proof -
    from that obtain loaded where "build knd (Some ns) loaded = Inr m"
      using read_montage_build by blast
    with assms show ?thesis by (rule build_names)
  qed
  with assms show ?thesis by (simp add: selected_all zip_star_selected [unfolded selected_all])
qed

theorem names_returned_verbatim_witness:
  "[''X'', ''A''] \<noteq> [] \<and>
   read_montage sample_world ''abc.sfp'' (Some [''X'', ''A'']) None True =
     Inr \<lparr>pos = Nd0 2, names = NamesTuple [''X'', ''A''], kind = ''abc.sfp''\<rparr> \<and>
   names \<lparr>pos = Nd0 (2::int), names = NamesTuple [''X'', ''A''], kind = ''abc.sfp''\<rparr> =
     NamesTuple [''X'', ''A''] \<and>
   zip_star (selected [''X'', ''A'']) = Inr ([0..<length [''X'', ''A'']], [''X'', ''A''])"
proof -
  have h: "[''X'', ''A''] \<noteq> []" by simp
  have r: "read_montage sample_world ''abc.sfp'' (Some [''X'', ''A'']) None True =
     Inr \<lparr>pos = Nd0 2, names = NamesTuple [''X'', ''A''], kind = ''abc.sfp''\<rparr>"
    by (simp add: eval_defs)
  from names_returned_verbatim [OF h, of sample_world "''abc.sfp''" None True
      "\<lparr>pos = Nd0 2, names = NamesTuple [''X'', ''A''], kind = ''abc.sfp''\<rparr>"] r h
  show ?thesis by blast
qed

text \<open>
  C7.  Claim: every Montage returned, with or without a \<open>names\<close> list, has as many
  positions as names, index by index the same sensor.  On the sample file \<open>abc.sfp\<close> the
  call with \<open>["B"]\<close> returns one name and, as positions, the 1-d array (1,2,3) of length 3,
  which is the row of sensor A.
\<close>

theorem filtered_montage_lengths_differ:
  "read_montage sample_world ''abc.sfp'' (Some [''B'']) None True =
     Inr \<lparr>pos = Nd1 [1, 2, 3], names = NamesTuple [''B''], kind = ''abc.sfp''\<rparr> \<and>
   len_nd (Nd1 [1, 2, 3 :: int]) = Inr 3 \<and>
   len_names (NamesTuple [''B'']) = Inr 1"
  by (simp add: eval_defs)

section \<open>The parsers\<close>

text \<open>
  C4.  The positions of a \<open>.txt\<close> file are a function of its theta column only: two
  \<open>.txt\<close> files that load and have the same theta column (their labels and their phi
  columns are free to differ) give the same positions, or the same exception, under the
  same \<open>names\<close> argument.
\<close>

theorem txt_positions_from_theta_only:
  assumes "endswith knd1 ''.txt''" and "endswith knd2 ''.txt''"
    and "loadtxt_struct w (op_join (case path1 of None \<Rightarrow> here w | Some p \<Rightarrow> p) knd1) 2 1 = Inr d1"
    and "loadtxt_struct w (op_join (case path2 of None \<Rightarrow> here w | Some p \<Rightarrow> p) knd2) 2 1 = Inr d2"
    and "field 0 d1 = field 0 d2"
  shows "map_sum id pos (read_montage w knd1 nms path1 scale) =
         map_sum id pos (read_montage w knd2 nms path2 scale)"
  using assms
  by (simp add: read_montage_txt read_txt_pos build_pos split: prod.splits sum.splits)

theorem txt_positions_from_theta_only_witness:
  "endswith ''cap.txt'' ''.txt'' \<and> endswith ''cap2.txt'' ''.txt'' \<and>
   loadtxt_struct sample_world ''/m/cap.txt'' 2 1 =
     Inr (Nd1 [(''Fp1'', [1, 2]), (''Fpz-'', [3, 4])]) \<and>
   loadtxt_struct sample_world ''/m/cap2.txt'' 2 1 =
     Inr (Nd1 [(''Fp1'', [1, 5]), (''Fpz-'', [3, 6])]) \<and>
   map_sum id pos (read_montage sample_world ''cap.txt'' None None True) =
     map_sum id pos (read_montage sample_world ''cap2.txt'' None None True) \<and>
   map_sum id pos (read_montage sample_world ''cap.txt'' None None True) =
     Inr (Nd2 [[10, 10, 1], [30, 30, 1]])"
proof -
  have e1: "endswith ''cap.txt'' ''.txt''" and e2: "endswith ''cap2.txt'' ''.txt''"
    by (simp_all add: endswith_def suffix_to_prefix)
  have j1: "op_join (case None of None \<Rightarrow> here sample_world | Some p \<Rightarrow> p) ''cap.txt'' = ''/m/cap.txt''"
    and j2: "op_join (case None of None \<Rightarrow> here sample_world | Some p \<Rightarrow> p) ''cap2.txt'' = ''/m/cap2.txt''"
    by (simp_all add: eval_defs)
  have l1: "loadtxt_struct sample_world ''/m/cap.txt'' 2 1 =
     Inr (Nd1 [(''Fp1'', [1, 2]), (''Fpz-'', [3, 4])])"
    by (simp add: eval_defs)
  have l2: "loadtxt_struct sample_world ''/m/cap2.txt'' 2 1 =
     Inr (Nd1 [(''Fp1'', [1, 5]), (''Fpz-'', [3, 6])])"
    by (simp add: eval_defs)
  have f: "field 0 (Nd1 [(''Fp1'', [1, 2 :: int]), (''Fpz-'', [3, 4])]) =
           field 0 (Nd1 [(''Fp1'', [1, 5]), (''Fpz-'', [3, 6])])"
    by (simp add: field_def)
  have v: "map_sum id pos (read_montage sample_world ''cap.txt'' None None True) =
     Inr (Nd2 [[10, 10, 1], [30, 30, 1]])"
    by (simp add: eval_defs)
  from txt_positions_from_theta_only [OF e1 e2 l1 [folded j1] l2 [folded j2] f, of None True]
  have "map_sum id pos (read_montage sample_world ''cap.txt'' None None True) =
     map_sum id pos (read_montage sample_world ''cap2.txt'' None None True)" .
  with e1 e2 l1 l2 v show ?thesis by blast
qed

text \<open>
  C5.  Claim: in an \<open>.elc\<close> file the labels end at the first blank or whitespace-only line
  after the \<open>Labels\<close> line, which is not itself taken as a label.  The test of the code,
  \<open>not line or not set(line) - set([' '])\<close>, is applied to lines that still end in their
  newline, so it holds for no line that has one: a blank line and a line of spaces are
  both appended as the empty label and the loop goes on to the lines after them.  The
  sample file \<open>s.elc\<close> has the label lines \<open>Fp1\<close>, a blank line and \<open>Fp2\<close>.
\<close>

theorem elc_blank_line_becomes_label:
  "read_labels [] [''Fp1'' @ [NL], [NL], ''Fp2'' @ [NL]] = [''Fp1'', [], ''Fp2''] \<and>
   read_labels [] [''Fp1'' @ [NL], ''  '' @ [NL], ''Fp2'' @ [NL]] = [''Fp1'', [], ''Fp2''] \<and>
   read_montage sample_world ''s.elc'' None None True =
     Inr \<lparr>pos = Nd2 [[1, 2, 3], [4, 5, 6], [7, 8, 9]],
          names = NamesList [''Fp1'', [], ''Fp2''], kind = ''s.elc''\<rparr>"
  by (simp add: eval_defs)

text \<open>
  C10.  The \<open>.txt\<close> and \<open>.csd\<close> parsers cut every label to its first four bytes, and a
  long label is never an error.  Let \<open>rows\<close> be the rows of tokens of the file after its
  header lines (one for \<open>.txt\<close>, two for \<open>.csd\<close>), and let the call have no \<open>names\<close> list.
  \<^item> Whenever a Montage is returned, its names are the first tokens of the rows, each cut
    to four bytes, so none is longer than four bytes.
  \<^item> The call does return when the rows are well formed apart from their labels, whose
    length is not constrained: every row has as many tokens as the first one, more than
    the number \<open>k\<close> of doubles of the dtype, and \<open>float\<close> accepts the \<open>k\<close> tokens after the
    label.  Then \<open>np.loadtxt\<close> returns the table with the cut labels; a \<open>.csd\<close> call
    returns a Montage with these names; a \<open>.txt\<close> call returns a Montage with these names
    unless joining the three arrays that \<open>_sphere_to_cartesian\<close> hands back fails.
  \<^item> On any rows, well formed or not, the conversion gives the same table, or the same
    exception, as on the rows with their labels already cut to four bytes.
\<close>

theorem txt_csd_labels_four_bytes:
  assumes "(endswith knd ''.txt'' \<and> s = 1 \<and> k = 2) \<or> (endswith knd ''.csd'' \<and> s = 2 \<and> k = 7)"
    and "files w (op_join (case path of None \<Rightarrow> here w | Some p \<Rightarrow> p) knd) = Some lines"
    and "token_rows s lines = Inr rows"
  shows "(\<forall>m. read_montage w knd None path scale = Inr m \<longrightarrow>
            names m = NamesArray (squeeze_struct (map (\<lambda>vals. take 4 (hd vals)) rows)) \<and>
            (\<forall>a. names m = NamesArray a \<longrightarrow> (\<forall>l \<in> set_ndarray a. length l \<le> 4))) \<and>
         ((\<forall>vals \<in> set rows. length vals = first_N rows \<and> k < length vals \<and>
              (\<forall>t \<in> set (take k (tl vals)). float_conv w t \<noteq> None)) \<longrightarrow>
          (\<exists>data. loadtxt_struct w (op_join (case path of None \<Rightarrow> here w | Some p \<Rightarrow> p) knd) k s = Inr data \<and>
             label_field data = squeeze_struct (map (\<lambda>vals. take 4 (hd vals)) rows) \<and>
             (endswith knd ''.csd'' \<longrightarrow>
                (\<exists>p. read_montage w knd None path scale =
                   Inr \<lparr>pos = p, names = NamesArray (label_field data), kind = snd (op_split knd)\<rparr>)) \<and>
             (endswith knd ''.txt'' \<longrightarrow>
                read_montage w knd None path scale =
                  (case sphere_to_cartesian w (map_ndarray (deg2rad w) (field 0 data))
                          (map_ndarray (deg2rad w) (field 0 data)) (one w) of
                     (x, y, z) \<Rightarrow>
                       (case np_c x y z of
                          Inl e \<Rightarrow> Inl e
                        | Inr p \<Rightarrow> Inr \<lparr>pos = p, names = NamesArray (label_field data),
                                          kind = snd (op_split knd)\<rparr>))))) \<and>
         convert_rows (conv_struct (float_conv w) k)
            (first_N (map (\<lambda>vals. case vals of [] \<Rightarrow> [] | label # toks \<Rightarrow> take 4 label # toks) rows))
            (map (\<lambda>vals. case vals of [] \<Rightarrow> [] | label # toks \<Rightarrow> take 4 label # toks) rows) =
         convert_rows (conv_struct (float_conv w) k) (first_N rows) rows"
proof -
  let ?fname = "op_join (case path of None \<Rightarrow> here w | Some p \<Rightarrow> p) knd"
  let ?cut = "squeeze_struct (map (\<lambda>vals. take 4 (hd vals)) rows)"
  have txt_not_csd: "endswith knd ''.txt'' \<Longrightarrow> \<not> endswith knd ''.csd''"
    using endswith_other [of knd "''.txt''" "''.csd''"] by simp
  have A: "names m = NamesArray ?cut \<and>
           (\<forall>a. names m = NamesArray a \<longrightarrow> (\<forall>l \<in> set_ndarray a. length l \<le> 4))"
    if rm: "read_montage w knd None path scale = Inr m" for m
  proof -
    have "\<exists>data k'. loadtxt_struct w ?fname k' s = Inr data \<and> names m = NamesArray (label_field data)"
      using assms(1)
    proof
      assume a: "endswith knd ''.txt'' \<and> s = 1 \<and> k = 2"
      with rm obtain p l where "read_txt w ?fname = Inr (p, l)" "build knd None (p, l) = Inr m"
        by (auto simp: read_montage_txt bind_result_Inr)
      with a show ?thesis
        using read_txt_names [of w ?fname p l] by (auto simp: build_def)
    next
      assume a: "endswith knd ''.csd'' \<and> s = 2 \<and> k = 7"
      with rm obtain p l where "read_csd w ?fname = Inr (p, l)" "build knd None (p, l) = Inr m"
        by (auto simp: read_montage_csd bind_result_Inr)
      with a show ?thesis
        using read_csd_names [of w ?fname p l] by (auto simp: build_def)
    qed
    then obtain data k' where ld: "loadtxt_struct w ?fname k' s = Inr data"
      and n: "names m = NamesArray (label_field data)" by blast
    have "label_field data = ?cut"
      using assms(2,3) ld by (rule loadtxt_struct_labels)
    with n have 1: "names m = NamesArray ?cut" by simp
    then show ?thesis by (auto simp: set_squeeze_struct)
  qed
  have B: "\<exists>data. loadtxt_struct w ?fname k s = Inr data \<and> label_field data = ?cut \<and>
             (endswith knd ''.csd'' \<longrightarrow>
                (\<exists>p. read_montage w knd None path scale =
                   Inr \<lparr>pos = p, names = NamesArray (label_field data), kind = snd (op_split knd)\<rparr>)) \<and>
             (endswith knd ''.txt'' \<longrightarrow>
                read_montage w knd None path scale =
                  (case sphere_to_cartesian w (map_ndarray (deg2rad w) (field 0 data))
                          (map_ndarray (deg2rad w) (field 0 data)) (one w) of
                     (x, y, z) \<Rightarrow>
                       (case np_c x y z of
                          Inl e \<Rightarrow> Inl e
                        | Inr p \<Rightarrow> Inr \<lparr>pos = p, names = NamesArray (label_field data),
                                          kind = snd (op_split knd)\<rparr>)))"
    if wf: "\<forall>vals \<in> set rows. length vals = first_N rows \<and> k < length vals \<and>
              (\<forall>t \<in> set (take k (tl vals)). float_conv w t \<noteq> None)"
  proof -
    from loadtxt_struct_ok [OF assms(2,3) wf] obtain data
      where ld: "loadtxt_struct w ?fname k s = Inr data" and lf: "label_field data = ?cut"
      by blast
    have C: "\<exists>p. read_montage w knd None path scale =
                   Inr \<lparr>pos = p, names = NamesArray (label_field data), kind = snd (op_split knd)\<rparr>"
      if c: "endswith knd ''.csd''"
    proof -
      from c assms(1) txt_not_csd have "k = 7" "s = 2" by auto
      with ld obtain p where "read_csd w ?fname = Inr (p, NamesArray (label_field data))"
        using read_csd_ok [of w ?fname data] by auto
      with c show ?thesis by (simp add: read_montage_csd build_def)
    qed
    have T: "read_montage w knd None path scale =
                  (case sphere_to_cartesian w (map_ndarray (deg2rad w) (field 0 data))
                          (map_ndarray (deg2rad w) (field 0 data)) (one w) of
                     (x, y, z) \<Rightarrow>
                       (case np_c x y z of
                          Inl e \<Rightarrow> Inl e
                        | Inr p \<Rightarrow> Inr \<lparr>pos = p, names = NamesArray (label_field data),
                                          kind = snd (op_split knd)\<rparr>))"
      if t: "endswith knd ''.txt''"
    proof -
      from t assms(1) txt_not_csd have "k = 2" "s = 1" by auto
      with ld have "loadtxt_struct w ?fname 2 1 = Inr data" by simp
      then show ?thesis
        using t by (simp add: read_montage_txt read_txt_eq build_def split: prod.splits sum.splits)
    qed
    from ld lf C T show ?thesis by blast
  qed
  have C: "convert_rows (conv_struct (float_conv w) k)
            (first_N (map (\<lambda>vals. case vals of [] \<Rightarrow> [] | label # toks \<Rightarrow> take 4 label # toks) rows))
            (map (\<lambda>vals. case vals of [] \<Rightarrow> [] | label # toks \<Rightarrow> take 4 label # toks) rows) =
         convert_rows (conv_struct (float_conv w) k) (first_N rows) rows"
    by (subst first_N_cut, rule refl, rule convert_rows_cut, rule refl)
  from A B C show ?thesis by blast
qed

theorem txt_csd_labels_four_bytes_witness:
  "files sample_world ''/m/t.csd'' =
     Some [''h1'' @ [NL], ''h2'' @ [NL], ''Fp1-left 1 2 3 4 5 6 7'' @ [NL],
           ''Cz 1 2 3 7 8 9 1'' @ [NL]] \<and>
   token_rows 2 [''h1'' @ [NL], ''h2'' @ [NL], ''Fp1-left 1 2 3 4 5 6 7'' @ [NL],
                 ''Cz 1 2 3 7 8 9 1'' @ [NL]] =
     Inr [[''Fp1-left'', ''1'', ''2'', ''3'', ''4'', ''5'', ''6'', ''7''],
          [''Cz'', ''1'', ''2'', ''3'', ''7'', ''8'', ''9'', ''1'']] \<and>
   (\<exists>p. read_montage sample_world ''t.csd'' None None True =
      Inr \<lparr>pos = p, names = NamesArray (Nd1 [''Fp1-'', ''Cz'']), kind = ''t.csd''\<rparr>) \<and>
   files sample_world ''/m/cap.txt'' =
     Some [''Site Theta Phi'' @ [NL], ''Fp1 1 2'' @ [NL], ''Fpz-long 3 4'' @ [NL]] \<and>
   token_rows 1 [''Site Theta Phi'' @ [NL], ''Fp1 1 2'' @ [NL], ''Fpz-long 3 4'' @ [NL]] =
     Inr [[''Fp1'', ''1'', ''2''], [''Fpz-long'', ''3'', ''4'']] \<and>
   read_montage sample_world ''cap.txt'' None None True =
     Inr \<lparr>pos = Nd2 [[10, 10, 1], [30, 30, 1]],
          names = NamesArray (Nd1 [''Fp1'', ''Fpz-'']), kind = ''cap.txt''\<rparr> \<and>
   length ''Fp1-'' \<le> 4 \<and> length ''Cz'' \<le> 4 \<and> length ''Fp1'' \<le> 4 \<and> length ''Fpz-'' \<le> 4"
proof -
  let ?clines = "[''h1'' @ [NL], ''h2'' @ [NL], ''Fp1-left 1 2 3 4 5 6 7'' @ [NL],
                  ''Cz 1 2 3 7 8 9 1'' @ [NL]]"
  let ?crows = "[[''Fp1-left'', ''1'', ''2'', ''3'', ''4'', ''5'', ''6'', ''7''],
                 [''Cz'', ''1'', ''2'', ''3'', ''7'', ''8'', ''9'', ''1'']]"
  let ?tlines = "[''Site Theta Phi'' @ [NL], ''Fp1 1 2'' @ [NL], ''Fpz-long 3 4'' @ [NL]]"
  let ?trows = "[[''Fp1'', ''1'', ''2''], [''Fpz-long'', ''3'', ''4'']]"
  have c1: "(endswith ''t.csd'' ''.txt'' \<and> (2::nat) = 1 \<and> (7::nat) = 2) \<or>
            (endswith ''t.csd'' ''.csd'' \<and> (2::nat) = 2 \<and> (7::nat) = 7)"
    by (simp add: endswith_def suffix_to_prefix)
  have cj: "op_join (case None of None \<Rightarrow> here sample_world | Some p \<Rightarrow> p) ''t.csd'' = ''/m/t.csd''"
    by (simp add: eval_defs)
  have c2: "files sample_world ''/m/t.csd'' = Some ?clines"
    by (simp add: eval_defs)
  have c3: "token_rows 2 ?clines = Inr ?crows"
    by (simp add: eval_defs)
  have cwf: "\<forall>vals \<in> set ?crows. length vals = first_N ?crows \<and> 7 < length vals \<and>
               (\<forall>t \<in> set (take 7 (tl vals)). float_conv sample_world t \<noteq> None)"
    by (simp add: first_N_def sample_world_def)
  have cc: "endswith ''t.csd'' ''.csd''"
    by (simp add: endswith_def suffix_to_prefix)
  note C = txt_csd_labels_four_bytes [OF c1 c2 [folded cj] c3, of True,
      THEN conjunct2, THEN conjunct1, THEN mp, OF cwf]
  then obtain data :: "(string \<times> int list) ndarray" where
    cl: "label_field data = squeeze_struct (map (\<lambda>vals. take 4 (hd vals)) ?crows)"
    and cr: "endswith ''t.csd'' ''.csd'' \<longrightarrow>
       (\<exists>p. read_montage sample_world ''t.csd'' None None True =
          Inr \<lparr>pos = p, names = NamesArray (label_field data), kind = snd (op_split ''t.csd'')\<rparr>)"
    by (elim exE conjE) blast
  from cr cc cl obtain p where
    "label_field data = squeeze_struct (map (\<lambda>vals. take 4 (hd vals)) ?crows)"
    "read_montage sample_world ''t.csd'' None None True =
       Inr \<lparr>pos = p, names = NamesArray (label_field data), kind = snd (op_split ''t.csd'')\<rparr>"
    by blast
  then have cres: "\<exists>p. read_montage sample_world ''t.csd'' None None True =
      Inr \<lparr>pos = p, names = NamesArray (Nd1 [''Fp1-'', ''Cz'']), kind = ''t.csd''\<rparr>"
    by (simp add: squeeze_struct_def op_split_def)
  have t1: "(endswith ''cap.txt'' ''.txt'' \<and> (1::nat) = 1 \<and> (2::nat) = 2) \<or>
            (endswith ''cap.txt'' ''.csd'' \<and> (1::nat) = 2 \<and> (2::nat) = 7)"
    by (simp add: endswith_def suffix_to_prefix)
  have tj: "op_join (case None of None \<Rightarrow> here sample_world | Some p \<Rightarrow> p) ''cap.txt'' = ''/m/cap.txt''"
    by (simp add: eval_defs)
  have t2: "files sample_world ''/m/cap.txt'' = Some ?tlines"
    by (simp add: eval_defs)
  have t3: "token_rows 1 ?tlines = Inr ?trows"
    by (simp add: eval_defs)
  have twf: "\<forall>vals \<in> set ?trows. length vals = first_N ?trows \<and> 2 < length vals \<and>
               (\<forall>t \<in> set (take 2 (tl vals)). float_conv sample_world t \<noteq> None)"
    by (simp add: first_N_def sample_world_def)
  have tt: "endswith ''cap.txt'' ''.txt''"
    by (simp add: endswith_def suffix_to_prefix)
  have tl: "loadtxt_struct sample_world ''/m/cap.txt'' 2 1 =
     Inr (Nd1 [(''Fp1'', [1, 2]), (''Fpz-'', [3, 4])])"
    by (simp add: eval_defs)
  note T = txt_csd_labels_four_bytes [OF t1 t2 [folded tj] t3, of True,
      THEN conjunct2, THEN conjunct1, THEN mp, OF twf]
  with tt obtain data' where
    "loadtxt_struct sample_world
       (op_join (case None of None \<Rightarrow> here sample_world | Some p \<Rightarrow> p) ''cap.txt'') 2 1 = Inr data'"
    and rm: "read_montage sample_world ''cap.txt'' None None True =
       (case sphere_to_cartesian sample_world (map_ndarray (deg2rad sample_world) (field 0 data'))
               (map_ndarray (deg2rad sample_world) (field 0 data')) (one sample_world) of
          (x, y, z) \<Rightarrow>
            (case np_c x y z of
               Inl e \<Rightarrow> Inl e
             | Inr p \<Rightarrow> Inr \<lparr>pos = p, names = NamesArray (label_field data'),
                               kind = snd (op_split ''cap.txt'')\<rparr>))"
    by blast
  with tl tj have "data' = Nd1 [(''Fp1'', [1, 2]), (''Fpz-'', [3, 4])]" by simp
  with rm have tres: "read_montage sample_world ''cap.txt'' None None True =
     Inr \<lparr>pos = Nd2 [[10, 10, 1], [30, 30, 1]],
          names = NamesArray (Nd1 [''Fp1'', ''Fpz-'']), kind = ''cap.txt''\<rparr>"
    by (simp add: sample_world_def field_def label_field_def np_c_def op_split_def)
  from c2 c3 cres t2 t3 tres show ?thesis by simp
qed

section \<open>Dispatch, flags and the kind tag\<close>

text \<open>
  C6.  A \<open>kind\<close> that ends in none of \<open>.sfp\<close>, \<open>.elc\<close>, \<open>.txt\<close>, \<open>.csd\<close> makes
  \<open>read_montage\<close> raise the \<open>ValueError\<close> whose message quotes \<open>kind\<close>, in every world and
  for every \<open>names\<close>, \<open>path\<close> and \<open>scale\<close>, and the call opens no file.
\<close>

theorem unsupported_suffix:
  assumes "\<not> endswith knd ''.sfp''" and "\<not> endswith knd ''.elc''"
    and "\<not> endswith knd ''.txt''" and "\<not> endswith knd ''.csd''"
  shows "read_montage_io w knd nms path scale =
           ([], Inl (ValueError (''Currently '' @ knd @ '' is not supported.'')))"
  using assms by (simp add: read_montage_io_def)

theorem unsupported_suffix_witness:
  "\<not> endswith ''foo.xyz'' ''.sfp'' \<and> \<not> endswith ''foo.xyz'' ''.elc'' \<and>
   \<not> endswith ''foo.xyz'' ''.txt'' \<and> \<not> endswith ''foo.xyz'' ''.csd'' \<and>
   read_montage_io sample_world ''foo.xyz'' None None True =
     ([], Inl (ValueError ''Currently foo.xyz is not supported.''))"
proof -
  have h1: "\<not> endswith ''foo.xyz'' ''.sfp''" and h2: "\<not> endswith ''foo.xyz'' ''.elc''"
    and h3: "\<not> endswith ''foo.xyz'' ''.txt''" and h4: "\<not> endswith ''foo.xyz'' ''.csd''"
    by (simp_all add: endswith_def suffix_to_prefix)
  from unsupported_suffix [OF h1 h2 h3 h4, of sample_world None None True] h1 h2 h3 h4
  show ?thesis by simp
qed

text \<open>
  C8.  The \<open>scale\<close> flag has no effect: for every world, \<open>kind\<close>, \<open>names\<close> and \<open>path\<close> the
  call with \<open>scale=True\<close> and the call with \<open>scale=False\<close> open the same files and end in
  the same exception or the same Montage.
\<close>

theorem scale_ignored:
  "read_montage_io w knd nms path True = read_montage_io w knd nms path False"
  by (simp add: read_montage_io_def)

text \<open>
  C9.  On every call that returns a Montage, its \<open>kind\<close> is the second component of
  \<open>op.split\<close> of the \<open>kind\<close> argument: it contains no slash, and the argument is a
  directory part, empty or ending in a slash, followed by it.  On the path of the example,
  \<open>/some/dir/Vectorview-all.lout\<close>, \<open>op.split\<close> yields \<open>Vectorview-all.lout\<close>.
\<close>

theorem kind_is_basename:
  assumes "read_montage w knd nms path scale = Inr m"
  shows "kind m = snd (op_split knd) \<and> CHR ''/'' \<notin> set (kind m) \<and>
         (\<exists>d. knd = d @ kind m \<and> (d = [] \<or> last d = CHR ''/'')) \<and>
         snd (op_split ''/some/dir/Vectorview-all.lout'') = ''Vectorview-all.lout''"
proof -
  from assms obtain loaded where "build knd nms loaded = Inr m"
    using read_montage_build by blast
  then have k: "kind m = snd (op_split knd)" by (rule build_kind)
  have ex: "snd (op_split ''/some/dir/Vectorview-all.lout'') = ''Vectorview-all.lout''"
    by (simp add: op_split_def)
  from k ex show ?thesis
    using basename_no_slash [of knd] basename_suffix [of knd] by simp
qed

theorem kind_is_basename_witness:
  "read_montage sample_world ''/some/dir/abc.sfp'' None None True =
     Inr \<lparr>pos = Nd2 [[1, 2, 3], [4, 5, 6]],
          names = NamesArray (Nd1 [''A'', ''B'']), kind = ''abc.sfp''\<rparr> \<and>
   ''abc.sfp'' = snd (op_split ''/some/dir/abc.sfp'') \<and>
   CHR ''/'' \<notin> set ''abc.sfp''"
proof -
  let ?m = "\<lparr>pos = Nd2 [[1, 2, 3 :: int], [4, 5, 6]],
             names = NamesArray (Nd1 [''A'', ''B'']), kind = ''abc.sfp''\<rparr>"
  have h: "read_montage sample_world ''/some/dir/abc.sfp'' None None True = Inr ?m"
    by (simp add: eval_defs)
  from kind_is_basename [OF h] have "kind ?m = snd (op_split ''/some/dir/abc.sfp'')"
    and "CHR ''/'' \<notin> set (kind ?m)" by blast+
  with h show ?thesis by simp
qed

end
